theory Spec2Isabelle
  imports Main "HOL-Library.Word" "HOL-Library.Sublist"
begin

section \<open>Data model\<close>

text \<open>
  A JavaScript string is a sequence of UTF-16 code units; \<open>length\<close> counts code units,
  as the \<open>length\<close> property of a JavaScript string does. Identifiers are only compared
  and tested for emptiness, so they are kept as plain strings.
\<close>

type_synonym js_string = "16 word list"

text \<open>
  The fields of a post object that the reconciliation code reads: \<open>_id\<close>,
  \<open>user?.uid\<close> and \<open>content\<close>. A property that is missing (\<open>undefined\<close>) is
  \<open>None\<close>.
\<close>

record post =
  post_id :: "string option"
  user_uid :: "string option"
  content :: "js_string option"

text \<open>What a push event can carry: nothing, \<open>null\<close>, a bare string, or an object.\<close>

datatype payload = JSUndefined | JSNull | JSString string | JSObject post

datatype js_error = TypeError

text \<open>JavaScript truthiness of a property holding a string or \<open>undefined\<close>.\<close>

fun truthy :: "string option \<Rightarrow> bool" where
  "truthy None = False"
| "truthy (Some s) = (s \<noteq> [])"

text \<open>The state of the feed screen (\<open>Dashboard.jsx\<close>): its \<open>useState\<close> cells and refs.\<close>

record feed =
  posts :: "post list"
  page :: nat
  loading :: bool
  hasMore :: bool
  initialLoad :: bool
  error :: "string option"
  retryCount :: nat
  isMounted :: bool
  fetching :: bool

definition Dashboard_init :: feed where
  "Dashboard_init = \<lparr>posts = [], page = 1, loading = False, hasMore = True,
     initialLoad = True, error = None, retryCount = 0, isMounted = True, fetching = False\<rparr>"

section \<open>Push-event handlers of the feed screen\<close>

text \<open>
  \<open>handlePostCreated\<close>: a falsy payload or a payload without a truthy \<open>_id\<close> is dropped;
  otherwise the updater returns \<open>prev\<close> when some entry has the same \<open>_id\<close> and
  \<open>[post, ...prev]\<close> when none has. A non-empty bare string is truthy but its \<open>_id\<close>
  is \<open>undefined\<close>, so it is dropped too.
\<close>

fun Dashboard_handlePostCreated :: "payload \<Rightarrow> feed \<Rightarrow> feed" where
  "Dashboard_handlePostCreated (JSObject newPost) s =
     (if \<not> truthy (post_id newPost) then s
      else s\<lparr>posts := (if list_ex (\<lambda>p. post_id p = post_id newPost) (posts s)
                          then posts s else newPost # posts s)\<rparr>)"
| "Dashboard_handlePostCreated _ s = s"

text \<open>\<open>handlePostUpdated\<close>: same guard, then \<open>prev.map\<close> replacing the entries whose
  \<open>_id\<close> equals the payload's.\<close>

fun Dashboard_handlePostUpdated :: "payload \<Rightarrow> feed \<Rightarrow> feed" where
  "Dashboard_handlePostUpdated (JSObject updatedPost) s =
     (if \<not> truthy (post_id updatedPost) then s
      else s\<lparr>posts := map (\<lambda>p. if post_id p = post_id updatedPost then updatedPost else p)
                          (posts s)\<rparr>)"
| "Dashboard_handlePostUpdated _ s = s"

text \<open>
  \<open>handlePostDeleted\<close> starts with \<open>postId = data?._id || data\<close>: the \<open>_id\<close> of an
  object when it is truthy, otherwise the payload itself.
\<close>

fun postId_of :: "payload \<Rightarrow> payload" where
  "postId_of (JSObject d) = (if truthy (post_id d) then JSString (the (post_id d)) else JSObject d)"
| "postId_of d = d"

text \<open>\<open>!v\<close> for a payload value.\<close>

fun falsy :: "payload \<Rightarrow> bool" where
  "falsy JSUndefined = True"
| "falsy JSNull = True"
| "falsy (JSString v) = (v = [])"
| "falsy (JSObject _) = False"

text \<open>\<open>p._id === v\<close>: strict equality of a list entry's \<open>_id\<close> with a value. An object
  is never strictly equal to a string or to \<open>undefined\<close>.\<close>

fun id_strict_eq :: "string option \<Rightarrow> payload \<Rightarrow> bool" where
  "id_strict_eq None JSUndefined = True"
| "id_strict_eq (Some i) (JSString j) = (i = j)"
| "id_strict_eq _ _ = False"

text \<open>A falsy \<open>postId\<close> returns before \<open>setPosts\<close>; otherwise the entries whose \<open>_id\<close>
  is strictly equal to \<open>postId\<close> are filtered out.\<close>

definition Dashboard_handlePostDeleted :: "payload \<Rightarrow> feed \<Rightarrow> feed" where
  "Dashboard_handlePostDeleted d s =
     (let postId = postId_of d in
      if falsy postId then s
      else s\<lparr>posts := filter (\<lambda>p. \<not> id_strict_eq (post_id p) postId) (posts s)\<rparr>)"

section \<open>Push-event handlers of the profile screen\<close>

text \<open>
  The handlers of \<open>Profile.jsx\<close> are registered once \<open>user\<close> is loaded; \<open>uid\<close> is
  \<open>user.uid\<close>, a string. They have no guard and no \<open>try\<close>: reading \<open>post.user\<close> of
  \<open>null\<close> or \<open>undefined\<close>, and destructuring \<open>{ _id }\<close> from them, throws a
  \<open>TypeError\<close>. A bare string has no \<open>user\<close> and no \<open>_id\<close> property.
\<close>

fun Profile_handlePostCreated :: "string \<Rightarrow> payload \<Rightarrow> post list \<Rightarrow> js_error + post list" where
  "Profile_handlePostCreated uid JSUndefined prev = Inl TypeError"
| "Profile_handlePostCreated uid JSNull prev = Inl TypeError"
| "Profile_handlePostCreated uid (JSString v) prev = Inr prev"
| "Profile_handlePostCreated uid (JSObject newPost) prev =
     (if user_uid newPost = Some uid
      then Inr (if list_ex (\<lambda>p. post_id p = post_id newPost) prev then prev else newPost # prev)
      else Inr prev)"

fun Profile_handlePostUpdated :: "string \<Rightarrow> payload \<Rightarrow> post list \<Rightarrow> js_error + post list" where
  "Profile_handlePostUpdated uid JSUndefined prev = Inl TypeError"
| "Profile_handlePostUpdated uid JSNull prev = Inl TypeError"
| "Profile_handlePostUpdated uid (JSString v) prev = Inr prev"
| "Profile_handlePostUpdated uid (JSObject updatedPost) prev =
     (if user_uid updatedPost = Some uid
      then Inr (map (\<lambda>p. if post_id p = post_id updatedPost then updatedPost else p) prev)
      else Inr prev)"

fun Profile_handlePostDeleted :: "payload \<Rightarrow> post list \<Rightarrow> js_error + post list" where
  "Profile_handlePostDeleted JSUndefined prev = Inl TypeError"
| "Profile_handlePostDeleted JSNull prev = Inl TypeError"
| "Profile_handlePostDeleted (JSString v) prev = Inr (filter (\<lambda>p. post_id p \<noteq> None) prev)"
| "Profile_handlePostDeleted (JSObject d) prev = Inr (filter (\<lambda>p. post_id p \<noteq> post_id d) prev)"

text \<open>
  Each push event is one call of the listener. A call that throws leaves the \<open>posts\<close>
  state as it was, and the next event is handled from there.
\<close>

definition Profile_dispatch_created :: "string \<Rightarrow> post list \<Rightarrow> payload \<Rightarrow> post list" where
  "Profile_dispatch_created uid prev e =
     (case Profile_handlePostCreated uid e prev of Inr r \<Rightarrow> r | Inl _ \<Rightarrow> prev)"

section \<open>The browser: local storage and timers\<close>

datatype timer_action = Redirect string | RetryFetch

text \<open>\<open>localStorage\<close> and the callbacks registered with \<open>setTimeout\<close>, each with its
  delay in milliseconds.\<close>

record browser =
  localStorage :: "string \<rightharpoonup> string"
  timers :: "(nat \<times> timer_action) list"

text \<open>What a rejected request carries: \<open>err.response\<close> (absent for a network error, a
  timeout or an exception thrown in the \<open>try\<close> block) and \<open>err.message\<close>.\<close>

record err_response =
  status :: "int option"
  data_message :: "string option"

record fetch_error =
  response :: "err_response option"
  message :: "string option"

text \<open>\<open>err.response?.data?.message || err.message || fallback\<close>.\<close>

definition errorMessage_of :: "string \<Rightarrow> fetch_error \<Rightarrow> string" where
  "errorMessage_of fallback err =
     (let m = (case response err of None \<Rightarrow> None | Some r \<Rightarrow> data_message r) in
      if truthy m then the m
      else if truthy (message err) then the (message err)
      else fallback)"

text \<open>\<open>err.response?.status === 401 || err.response?.status === 403\<close>.\<close>

definition is_auth_error :: "fetch_error \<Rightarrow> bool" where
  "is_auth_error err =
     (case response err of None \<Rightarrow> False
      | Some r \<Rightarrow> status r = Some 401 \<or> status r = Some 403)"

text \<open>\<open>localStorage.removeItem("authToken")\<close> and
  \<open>setTimeout(() => { window.location.href = "/login" }, 2000)\<close>.\<close>

definition force_logout :: "browser \<Rightarrow> browser" where
  "force_logout w = w\<lparr>localStorage := (localStorage w)(''authToken'' := None),
                       timers := timers w @ [(2000, Redirect ''/login'')]\<rparr>"

section \<open>Pull-fetch of the feed screen\<close>

text \<open>The request \<open>GET /posts?page=pageNum&limit=10\<close> with its bearer token, if any.\<close>

record fetch_request =
  req_page :: nat
  req_limit :: nat
  req_token :: "string option"

text \<open>The body of a response: \<open>res.data\<close> may be null or undefined, and its \<open>posts\<close>
  property may be missing.\<close>

datatype response_body = NoBody | Body "post list option"

datatype fetch_result = Resolved response_body | Rejected fetch_error

text \<open>
  \<open>fetchPosts\<close> up to its \<open>await\<close>: skipped while a fetch is in progress; otherwise
  it sets the ref and the loading flag, clears the error and issues the request. An empty
  token is falsy and sends no header.
\<close>

definition fetchPosts_begin :: "nat \<Rightarrow> feed \<Rightarrow> browser \<Rightarrow> feed \<times> fetch_request option" where
  "fetchPosts_begin pageNum s w =
     (if fetching s then (s, None)
      else (s\<lparr>fetching := True, loading := True, error := None\<rparr>,
            Some \<lparr>req_page = pageNum, req_limit = 10,
                  req_token = (if truthy (localStorage w ''authToken'')
                               then localStorage w ''authToken'' else None)\<rparr>))"

text \<open>
  The \<open>try\<close> block after the \<open>await\<close>, with \<open>finally\<close>. \<open>newPosts\<close> is
  \<open>res.data.posts || []\<close>. For a page advance the updater handed to \<open>setPosts\<close> runs on
  the list as it is when the update is applied; otherwise the list is replaced.
\<close>

definition fetchPosts_resolved :: "nat \<Rightarrow> bool \<Rightarrow> post list option \<Rightarrow> feed \<Rightarrow> feed" where
  "fetchPosts_resolved pageNum shouldAppend body s =
     (if \<not> isMounted s then s
      else
        let newPosts = (case body of None \<Rightarrow> [] | Some ps \<Rightarrow> ps) in
        s\<lparr>posts := (if shouldAppend \<and> pageNum > 1
                     then posts s @ filter (\<lambda>p. post_id p \<notin> set (map post_id (posts s))) newPosts
                     else newPosts),
          hasMore := (length newPosts \<ge> 10),
          initialLoad := False,
          retryCount := 0,
          loading := False,
          fetching := False\<rparr>)"

text \<open>The \<open>catch\<close> block, with \<open>finally\<close>. It never calls \<open>setPosts\<close>.\<close>

definition fetchPosts_rejected :: "fetch_error \<Rightarrow> feed \<Rightarrow> browser \<Rightarrow> feed \<times> browser" where
  "fetchPosts_rejected err s w =
     (if \<not> isMounted s then (s, w)
      else (s\<lparr>error := Some (errorMessage_of ''Failed to load posts'' err),
              hasMore := False,
              loading := False,
              fetching := False\<rparr>,
            if is_auth_error err then force_logout w else w))"

text \<open>Reading \<open>posts\<close> of a null or undefined \<open>res.data\<close> throws inside the \<open>try\<close>
  block; the exception has no \<open>response\<close>, and a message whose text depends on the
  engine.\<close>

definition body_TypeError :: fetch_error where
  "body_TypeError = \<lparr>response = None, message = Some ''Cannot read properties of null''\<rparr>"

fun fetchPosts_settle ::
  "nat \<Rightarrow> bool \<Rightarrow> fetch_result \<Rightarrow> feed \<Rightarrow> browser \<Rightarrow> feed \<times> browser" where
  "fetchPosts_settle pageNum shouldAppend (Resolved (Body b)) s w =
     (fetchPosts_resolved pageNum shouldAppend b s, w)"
| "fetchPosts_settle pageNum shouldAppend (Resolved NoBody) s w =
     fetchPosts_rejected body_TypeError s w"
| "fetchPosts_settle pageNum shouldAppend (Rejected err) s w =
     fetchPosts_rejected err s w"



section \<open>Infinite scroll\<close>

text \<open>
  The observer effect depends on \<open>loading\<close>, \<open>hasMore\<close>, \<open>initialLoad\<close> and
  \<open>posts.length\<close>. Whenever one of them changes, the cleanup of the previous run
  disconnects the observer, and the new run returns early (leaving no observer connected)
  when \<open>loading || !hasMore || initialLoad || !lastPostRef.current\<close>; the ref is set
  when at least one post is rendered. So an observer is connected exactly when:
\<close>

definition observer_connected :: "feed \<Rightarrow> bool" where
  "observer_connected s =
     (isMounted s \<and> \<not> (loading s \<or> \<not> hasMore s \<or> initialLoad s \<or> posts s = []))"

text \<open>
  The observer's callback, with the \<open>page\<close> effect that follows an increment:
  \<open>if (entries[0].isIntersecting && hasMore && !loading && !fetchingRef.current)\<close> the
  page is incremented, and the effect on \<open>page\<close> calls \<open>fetchPosts(page, true)\<close> because
  the new page is greater than 1. The result is the new state and the request issued, if any.
\<close>

definition onIntersect :: "bool \<Rightarrow> feed \<Rightarrow> browser \<Rightarrow> feed \<times> fetch_request option" where
  "onIntersect isIntersecting s w =
     (if observer_connected s \<and> isIntersecting \<and> hasMore s \<and> \<not> loading s \<and> \<not> fetching s
      then fetchPosts_begin (page s + 1) (s\<lparr>page := page s + 1\<rparr>) w
      else (s, None))"

section \<open>Push events and user events of the feed screen\<close>

datatype push_event = PostCreated payload | PostUpdated payload | PostDeleted payload

text \<open>The listeners are registered by an effect when the screen mounts, whatever the
  loading state, and removed when it unmounts.\<close>

fun Dashboard_socket_event :: "push_event \<Rightarrow> feed \<Rightarrow> feed" where
  "Dashboard_socket_event ev s =
     (if \<not> isMounted s then s
      else case ev of
        PostCreated d \<Rightarrow> Dashboard_handlePostCreated d s
      | PostUpdated d \<Rightarrow> Dashboard_handlePostUpdated d s
      | PostDeleted d \<Rightarrow> Dashboard_handlePostDeleted d s)"

text \<open>What happens to the feed while no fetch settles and no retry fires: push events and
  visibility changes of the last post. Each step gives the requests it issued.\<close>

datatype feed_event = Push push_event | Intersect bool

fun feed_step :: "browser \<Rightarrow> feed_event \<Rightarrow> feed \<Rightarrow> feed \<times> fetch_request list" where
  "feed_step w (Push ev) s = (Dashboard_socket_event ev s, [])"
| "feed_step w (Intersect b) s =
     (case onIntersect b s w of (s', None) \<Rightarrow> (s', []) | (s', Some r) \<Rightarrow> (s', [r]))"

fun feed_run :: "browser \<Rightarrow> feed_event list \<Rightarrow> feed \<Rightarrow> feed \<times> fetch_request list" where
  "feed_run w [] s = (s, [])"
| "feed_run w (e # es) s =
     (case feed_step w e s of (s', rs) \<Rightarrow>
        (case feed_run w es s' of (s'', rs') \<Rightarrow> (s'', rs @ rs')))"

section \<open>What the feed screen renders\<close>




section \<open>Profile fetch failure\<close>

record profile =
  profile_user :: "string option"
  profile_posts :: "post list"
  profile_loading :: bool
  profile_error :: "string option"

text \<open>The \<open>catch\<close> and \<open>finally\<close> blocks of \<open>fetchProfile\<close>; \<open>mounted\<close> is the
  effect's \<open>isMounted\<close> variable.\<close>

definition fetchProfile_rejected ::
  "bool \<Rightarrow> fetch_error \<Rightarrow> profile \<Rightarrow> browser \<Rightarrow> profile \<times> browser" where
  "fetchProfile_rejected mounted err s w =
     (if \<not> mounted then (s, w)
      else (s\<lparr>profile_error := Some (errorMessage_of ''Failed to load profile'' err),
              profile_loading := False\<rparr>,
            if is_auth_error err then force_logout w else w))"

text \<open>Three posts and a fourth, used to run the handlers on concrete lists.\<close>

definition post_A :: post where
  "post_A = \<lparr>post_id = Some ''a'', user_uid = Some ''u1'', content = Some [0x41]\<rparr>"

definition post_B :: post where
  "post_B = \<lparr>post_id = Some ''b'', user_uid = Some ''u2'', content = Some [0x42]\<rparr>"

definition post_C :: post where
  "post_C = \<lparr>post_id = Some ''c'', user_uid = Some ''u1'', content = None\<rparr>"

definition post_D :: post where
  "post_D = \<lparr>post_id = Some ''d'', user_uid = Some ''u2'', content = Some [0x44]\<rparr>"

text \<open>A feed showing \<open>[A, B]\<close> whose request for page 2 is in flight.\<close>

definition feed_loading_more :: feed where
  "feed_loading_more = \<lparr>posts = [post_A, post_B], page = 2, loading = True, hasMore = True,
     initialLoad = False, error = None, retryCount = 0, isMounted = True, fetching = True\<rparr>"

text \<open>A browser holding a bearer token, with no timer pending.\<close>

definition browser_signed_in :: browser where
  "browser_signed_in = \<lparr>localStorage = [''authToken'' \<mapsto> ''t0''], timers = []\<rparr>"


definition err_401 :: fetch_error where
  "err_401 = \<lparr>response = Some \<lparr>status = Some 401, data_message = Some ''Unauthorized''\<rparr>,
               message = Some ''Request failed with status code 401''\<rparr>"

definition err_500 :: fetch_error where
  "err_500 = \<lparr>response = Some \<lparr>status = Some 500, data_message = None\<rparr>,
               message = Some ''Request failed with status code 500''\<rparr>"

text \<open>The feed right after mounting, its first request in flight.\<close>

definition feed_loading_initial :: feed where
  "feed_loading_initial = fst (fetchPosts_begin 1 Dashboard_init browser_signed_in)"

text \<open>The profile screen as it mounts.\<close>

definition Profile_init :: profile where
  "Profile_init = \<lparr>profile_user = None, profile_posts = [], profile_loading = True,
     profile_error = None\<rparr>"

text \<open>A post of user \<open>u1\<close> that arrives without an \<open>_id\<close>.\<close>

definition post_no_id :: post where
  "post_no_id = \<lparr>post_id = None, user_uid = Some ''u1'', content = Some [0x58]\<rparr>"

section \<open>Editing a post on its card\<close>

text \<open>
  \<open>String.prototype.trim\<close> strips the code units that are WhiteSpace or LineTerminator:
  tab, line feed, vertical tab, form feed, carriage return, space, no-break space, the
  space separators U+1680, U+2000 to U+200A, U+202F, U+205F, U+3000, the line and
  paragraph separators U+2028 and U+2029, and the byte order mark U+FEFF.
\<close>

definition js_whitespace :: "16 word \<Rightarrow> bool" where
  "js_whitespace c =
     (c = 0x0009 \<or> c = 0x000A \<or> c = 0x000B \<or> c = 0x000C \<or> c = 0x000D \<or> c = 0x0020
      \<or> c = 0x00A0 \<or> c = 0x1680 \<or> (0x2000 \<le> c \<and> c \<le> 0x200A)
      \<or> c = 0x2028 \<or> c = 0x2029 \<or> c = 0x202F \<or> c = 0x205F \<or> c = 0x3000 \<or> c = 0xFEFF)"

definition trim :: "js_string \<Rightarrow> js_string" where
  "trim t = rev (dropWhile js_whitespace (rev (dropWhile js_whitespace t)))"

text \<open>The state cells of \<open>PostCard\<close> that editing touches.\<close>

record card =
  isEditing :: bool
  editContent :: js_string
  isSaving :: bool

text \<open>\<open>PUT /posts/:id\<close> with its body and bearer token.\<close>

record put_request =
  put_id :: "string option"
  put_userId :: string
  put_content :: js_string
  put_token :: string

text \<open>What \<open>handleEdit\<close> does to the outside, in order: an \<open>alert\<close>, the request, the
  call of the parent's \<open>onPostUpdated\<close> with \<open>res.data\<close>.\<close>

datatype card_effect = Alert string | PutPost put_request | OnPostUpdated post

text \<open>\<open>post.content || ""\<close>.\<close>

definition content_or_empty :: "post \<Rightarrow> js_string" where
  "content_or_empty p = (case content p of None \<Rightarrow> [] | Some t \<Rightarrow> t)"

text \<open>Reading \<open>currentUser.uid\<close> when nobody is signed in throws inside the \<open>try\<close>
  block; the message shown depends on the engine.\<close>

definition uid_TypeError :: fetch_error where
  "uid_TypeError = \<lparr>response = None, message = Some ''Cannot read properties of null''\<rparr>"

text \<open>
  \<open>handleEdit\<close>. The answer of the REST API to the request is the parameter \<open>api\<close>;
  \<open>currentUser\<close> is the uid of \<open>auth.currentUser\<close>, if any; \<open>hasCallback\<close> tells
  whether the parent passed \<open>onPostUpdated\<close>. The \<open>finally\<close> block resets \<open>isSaving\<close>.
\<close>

definition handleEdit ::
  "(put_request \<Rightarrow> fetch_error + post) \<Rightarrow> bool \<Rightarrow> string option \<Rightarrow> browser \<Rightarrow> post \<Rightarrow> card
     \<Rightarrow> card \<times> card_effect list" where
  "handleEdit api hasCallback currentUser w p c =
     (let trimmedContent = trim (editContent c) in
      if trimmedContent = [] \<or> Some trimmedContent = content p
      then (c\<lparr>isEditing := False, editContent := content_or_empty p\<rparr>, [])
      else if length trimmedContent > 5000
      then (c, [Alert ''Post content is too long (max 5000 characters)''])
      else if \<not> truthy (localStorage w ''authToken'')
      then (c\<lparr>isSaving := False\<rparr>, [Alert ''Authentication required''])
      else case currentUser of
        None \<Rightarrow> (c\<lparr>isSaving := False\<rparr>,
                 [Alert (errorMessage_of ''Failed to update post'' uid_TypeError)])
      | Some uid \<Rightarrow>
          let req = \<lparr>put_id = post_id p, put_userId = uid, put_content = trimmedContent,
                     put_token = the (localStorage w ''authToken'')\<rparr> in
          (case api req of
             Inl err \<Rightarrow> (c\<lparr>isSaving := False\<rparr>,
                         [PutPost req, Alert (errorMessage_of ''Failed to update post'' err)])
           | Inr updated \<Rightarrow> (c\<lparr>isEditing := False, isSaving := False\<rparr>,
                             PutPost req # (if hasCallback then [OnPostUpdated updated] else []))))"

text \<open>The Save button is disabled when
  \<open>isSaving || !editContent.trim() || editContent === post.content\<close>; a click on a
  disabled button does nothing.\<close>

definition save_disabled :: "post \<Rightarrow> card \<Rightarrow> bool" where
  "save_disabled p c = (isSaving c \<or> trim (editContent c) = [] \<or> Some (editContent c) = content p)"

definition click_save ::
  "(put_request \<Rightarrow> fetch_error + post) \<Rightarrow> bool \<Rightarrow> string option \<Rightarrow> browser \<Rightarrow> post \<Rightarrow> card
     \<Rightarrow> card \<times> card_effect list" where
  "click_save api hasCallback currentUser w p c =
     (if save_disabled p c then (c, []) else handleEdit api hasCallback currentUser w p c)"

text \<open>A card in edit mode holding \<open>" Z "\<close>, and an API that accepts every edit.\<close>

definition card_editing :: card where
  "card_editing = \<lparr>isEditing = True, editContent = [0x20, 0x5A, 0x20], isSaving = False\<rparr>"

definition api_accepts :: "put_request \<Rightarrow> fetch_error + post" where
  "api_accepts req = Inr \<lparr>post_id = put_id req, user_uid = Some (put_userId req),
                          content = Some (put_content req)\<rparr>"

section \<open>Push update and push delete on the feed screen\<close>

lemma map_replace_absent:
  "k \<notin> f ` set xs \<Longrightarrow> map (\<lambda>p. if f p = k then u else p) xs = xs"
  by (induction xs) auto

lemma filter_absent:
  "k \<notin> f ` set xs \<Longrightarrow> filter (\<lambda>p. f p \<noteq> k) xs = xs"
  by (induction xs) auto

lemma count_list_filter:
  "count_list (filter P xs) x = (if P x then count_list xs x else 0)"
  by (induction xs) auto

lemma filter_single_occurrence:
  assumes "f p = k" and "k \<notin> f ` (set as \<union> set bs)"
  shows "filter (\<lambda>q. f q \<noteq> k) (as @ p # bs) = as @ bs"
proof -
  have "k \<notin> f ` set as" "k \<notin> f ` set bs"
    using assms(2) by auto
  then show ?thesis
    using assms(1) by (simp add: filter_absent)
qed

lemma id_strict_eq_JSString: "id_strict_eq j (JSString i) = (j = Some i)"
  by (cases j) auto

text \<open>
  C7. A push \<open>updated\<close> event carrying a post with an identifier replaces, position by
  position, exactly the entries of the list that have this identifier by the updated post,
  and leaves every other entry, the length and the order as they were. When a single entry
  has the identifier, the list \<open>as @ p # bs\<close> becomes \<open>as @ u # bs\<close>. When no entry has
  it, the list is unchanged. Nothing but the list changes.
\<close>

theorem Dashboard_updated_replaces_in_place:
  assumes "truthy (post_id u)"
  shows "Dashboard_handlePostUpdated (JSObject u) s
           = s\<lparr>posts := posts (Dashboard_handlePostUpdated (JSObject u) s)\<rparr>
       \<and> length (posts (Dashboard_handlePostUpdated (JSObject u) s)) = length (posts s)
       \<and> (\<forall>i < length (posts s).
            posts (Dashboard_handlePostUpdated (JSObject u) s) ! i
              = (if post_id (posts s ! i) = post_id u then u else posts s ! i))
       \<and> (\<forall>as p bs. posts s = as @ p # bs \<and> post_id p = post_id u
              \<and> post_id u \<notin> post_id ` (set as \<union> set bs)
            \<longrightarrow> posts (Dashboard_handlePostUpdated (JSObject u) s) = as @ u # bs)
       \<and> (post_id u \<notin> post_id ` set (posts s)
            \<longrightarrow> posts (Dashboard_handlePostUpdated (JSObject u) s) = posts s)"
proof -
  let ?r = "posts (Dashboard_handlePostUpdated (JSObject u) s)"
  have r: "?r = map (\<lambda>p. if post_id p = post_id u then u else p) (posts s)"
    using assms by simp
  have one: "?r = as @ u # bs"
    if "posts s = as @ p # bs" "post_id p = post_id u"
       "post_id u \<notin> post_id ` (set as \<union> set bs)" for as p bs
  proof -
    have "post_id u \<notin> post_id ` set as" "post_id u \<notin> post_id ` set bs"
      using that(3) by auto
    then show ?thesis
      unfolding r using that(1,2) by (simp add: map_replace_absent)
  qed
  have absent: "?r = posts s" if "post_id u \<notin> post_id ` set (posts s)"
    unfolding r using that by (simp add: map_replace_absent)
  have st: "Dashboard_handlePostUpdated (JSObject u) s = s\<lparr>posts := ?r\<rparr>"
    using assms by simp
  have len: "length ?r = length (posts s)"
    unfolding r by simp
  have nth: "\<forall>i < length (posts s).
      ?r ! i = (if post_id (posts s ! i) = post_id u then u else posts s ! i)"
    unfolding r by simp
  from st len nth one absent show ?thesis
    by blast
qed

theorem Dashboard_updated_replaces_in_place_witness:
  "truthy (post_id (post_A\<lparr>content := Some [0x5A]\<rparr>))
   \<and> posts (Dashboard_handlePostUpdated (JSObject (post_A\<lparr>content := Some [0x5A]\<rparr>))
        (Dashboard_init\<lparr>posts := [post_D, post_A, post_C]\<rparr>))
     = [post_D, post_A\<lparr>content := Some [0x5A]\<rparr>, post_C]
   \<and> posts (Dashboard_handlePostUpdated (JSObject (post_A\<lparr>content := Some [0x5A]\<rparr>))
        (Dashboard_init\<lparr>posts := [post_D, post_C]\<rparr>))
     = [post_D, post_C]"
proof -
  let ?u = "post_A\<lparr>content := Some [0x5A]\<rparr>"
  have t: "truthy (post_id ?u)"
    by (simp add: post_A_def)
  have one: "posts (Dashboard_handlePostUpdated (JSObject ?u)
        (Dashboard_init\<lparr>posts := [post_D, post_A, post_C]\<rparr>)) = [post_D] @ ?u # [post_C]"
    using Dashboard_updated_replaces_in_place [OF t,
        of "Dashboard_init\<lparr>posts := [post_D, post_A, post_C]\<rparr>"]
    by (simp add: post_A_def post_C_def post_D_def)
  have none: "posts (Dashboard_handlePostUpdated (JSObject ?u)
        (Dashboard_init\<lparr>posts := [post_D, post_C]\<rparr>)) = [post_D, post_C]"
    using Dashboard_updated_replaces_in_place [OF t,
        of "Dashboard_init\<lparr>posts := [post_D, post_C]\<rparr>"]
    by (simp add: post_A_def post_C_def post_D_def)
  from t one none show ?thesis
    by simp
qed

text \<open>
  Push delete where the handlers read the identifier. A \<open>deleted\<close> event whose
  identifier is \<open>i\<close> removes exactly the entries with this identifier: the result is a
  subsequence of the list (the remaining entries keep their relative order), every entry
  with another identifier occurs as often as before, and no entry with the identifier is
  left. When a single entry has the identifier, \<open>as @ p # bs\<close> becomes \<open>as @ bs\<close>;
  when none has it, the list is unchanged. The feed screen reads the identifier as
  \<open>data?._id || data\<close> (the truthy \<open>_id\<close> of an object, or a non-empty bare string),
  the profile screen as the \<open>_id\<close> of the object that its handler destructures.
\<close>

lemma deleted_removes_matching_entry:
  assumes "postId_of d = JSString i" and "i \<noteq> []" and "truthy (post_id e)"
  shows "Dashboard_handlePostDeleted d s = s\<lparr>posts := posts (Dashboard_handlePostDeleted d s)\<rparr>
       \<and> subseq (posts (Dashboard_handlePostDeleted d s)) (posts s)
       \<and> (\<forall>p. count_list (posts (Dashboard_handlePostDeleted d s)) p
                = (if post_id p = Some i then 0 else count_list (posts s) p))
       \<and> (\<forall>as p bs. posts s = as @ p # bs \<and> post_id p = Some i
              \<and> Some i \<notin> post_id ` (set as \<union> set bs)
            \<longrightarrow> posts (Dashboard_handlePostDeleted d s) = as @ bs)
       \<and> (Some i \<notin> post_id ` set (posts s) \<longrightarrow> posts (Dashboard_handlePostDeleted d s) = posts s)
       \<and> (\<exists>r. Profile_handlePostDeleted (JSObject e) prev = Inr r
              \<and> subseq r prev
              \<and> (\<forall>p. count_list r p = (if post_id p = post_id e then 0 else count_list prev p))
              \<and> (\<forall>as p bs. prev = as @ p # bs \<and> post_id p = post_id e
                     \<and> post_id e \<notin> post_id ` (set as \<union> set bs) \<longrightarrow> r = as @ bs)
              \<and> (post_id e \<notin> post_id ` set prev \<longrightarrow> r = prev))"
proof -
  let ?r = "posts (Dashboard_handlePostDeleted d s)"
  have r: "?r = filter (\<lambda>p. post_id p \<noteq> Some i) (posts s)"
    using assms by (simp add: Dashboard_handlePostDeleted_def id_strict_eq_JSString)
  have st: "Dashboard_handlePostDeleted d s = s\<lparr>posts := ?r\<rparr>"
    using assms by (simp add: Dashboard_handlePostDeleted_def)
  have sub: "subseq ?r (posts s)"
    unfolding r by simp
  have cnt: "\<forall>p. count_list ?r p = (if post_id p = Some i then 0 else count_list (posts s) p)"
    unfolding r by (simp add: count_list_filter)
  have one: "\<forall>as p bs. posts s = as @ p # bs \<and> post_id p = Some i
              \<and> Some i \<notin> post_id ` (set as \<union> set bs) \<longrightarrow> ?r = as @ bs"
    unfolding r using filter_single_occurrence [where f = post_id and k = "Some i"] by metis
  have absent: "Some i \<notin> post_id ` set (posts s) \<longrightarrow> ?r = posts s"
    unfolding r using filter_absent [where f = post_id and k = "Some i"] by metis
  let ?q = "filter (\<lambda>p. post_id p \<noteq> post_id e) prev"
  have q: "Profile_handlePostDeleted (JSObject e) prev = Inr ?q"
    by simp
  have qsub: "subseq ?q prev"
    by simp
  have qcnt: "\<forall>p. count_list ?q p = (if post_id p = post_id e then 0 else count_list prev p)"
    by (simp add: count_list_filter)
  have qone: "\<forall>as p bs. prev = as @ p # bs \<and> post_id p = post_id e
              \<and> post_id e \<notin> post_id ` (set as \<union> set bs) \<longrightarrow> ?q = as @ bs"
    using filter_single_occurrence [where f = post_id and k = "post_id e"] by metis
  have qabsent: "post_id e \<notin> post_id ` set prev \<longrightarrow> ?q = prev"
    using filter_absent [where f = post_id and k = "post_id e"] by metis
  from q qsub qcnt qone qabsent
  have prof: "\<exists>r. Profile_handlePostDeleted (JSObject e) prev = Inr r
              \<and> subseq r prev
              \<and> (\<forall>p. count_list r p = (if post_id p = post_id e then 0 else count_list prev p))
              \<and> (\<forall>as p bs. prev = as @ p # bs \<and> post_id p = post_id e
                     \<and> post_id e \<notin> post_id ` (set as \<union> set bs) \<longrightarrow> r = as @ bs)
              \<and> (post_id e \<notin> post_id ` set prev \<longrightarrow> r = prev)"
    by blast
  from st sub cnt one absent prof show ?thesis
    by blast
qed

lemma deleted_removes_matching_entry_example:
  "postId_of (JSObject post_B) = JSString ''b'' \<and> ''b'' \<noteq> [] \<and> truthy (post_id post_A)
   \<and> posts (Dashboard_handlePostDeleted (JSObject post_B)
        (Dashboard_init\<lparr>posts := [post_D, post_A, post_B, post_C]\<rparr>))
     = [post_D, post_A, post_C]
   \<and> posts (Dashboard_handlePostDeleted (JSObject post_B)
        (Dashboard_init\<lparr>posts := [post_D, post_A, post_C]\<rparr>))
     = [post_D, post_A, post_C]
   \<and> Profile_handlePostDeleted (JSObject post_A) [post_A, post_C] = Inr [post_C]"
proof -
  have h: "postId_of (JSObject post_B) = JSString ''b''" "''b'' \<noteq> []" "truthy (post_id post_A)"
    by (simp_all add: post_A_def post_B_def)
  let ?s1 = "Dashboard_init\<lparr>posts := [post_D, post_A, post_B, post_C]\<rparr>"
  let ?s2 = "Dashboard_init\<lparr>posts := [post_D, post_A, post_C]\<rparr>"
  have "posts ?s1 = [post_D, post_A] @ post_B # [post_C] \<and> post_id post_B = Some ''b''
          \<and> Some ''b'' \<notin> post_id ` (set [post_D, post_A] \<union> set [post_C])
        \<longrightarrow> posts (Dashboard_handlePostDeleted (JSObject post_B) ?s1) = [post_D, post_A] @ [post_C]"
    using deleted_removes_matching_entry [OF h, where s = ?s1] by blast
  then have one: "posts (Dashboard_handlePostDeleted (JSObject post_B) ?s1)
      = [post_D, post_A, post_C]"
    by (simp add: post_A_def post_B_def post_C_def post_D_def)
  have "Some ''b'' \<notin> post_id ` set (posts ?s2)
        \<longrightarrow> posts (Dashboard_handlePostDeleted (JSObject post_B) ?s2) = posts ?s2"
    using deleted_removes_matching_entry [OF h, where s = ?s2] by blast
  then have none: "posts (Dashboard_handlePostDeleted (JSObject post_B) ?s2)
      = [post_D, post_A, post_C]"
    by (simp add: post_A_def post_C_def post_D_def)
  have prof: "Profile_handlePostDeleted (JSObject post_A) [post_A, post_C] = Inr [post_C]"
    by (simp add: post_A_def post_C_def)
  from h one none prof show ?thesis
    by simp
qed

text \<open>
  C8 fails on the profile screen when the \<open>deleted\<close> event carries the identifier
  itself rather than an object. The feed screen's handler takes \<open>data?._id || data\<close>
  and removes \<open>B\<close> from \<open>[A, B, C]\<close>. The profile screen's handler destructures
  \<open>{ _id }\<close> from the payload; a string has no \<open>_id\<close>, so the filter compares
  every entry's \<open>_id\<close> with \<open>undefined\<close>: \<open>B\<close> stays in the list, and an entry
  without \<open>_id\<close> is removed instead.
\<close>

theorem Profile_deleted_bare_identifier:
  "post_id post_B = Some ''b''
   \<and> posts (Dashboard_socket_event (PostDeleted (JSString ''b''))
        (Dashboard_init\<lparr>posts := [post_A, post_B, post_C]\<rparr>)) = [post_A, post_C]
   \<and> Profile_handlePostDeleted (JSString ''b'') [post_A, post_B, post_C]
       = Inr [post_A, post_B, post_C]
   \<and> Profile_handlePostDeleted (JSString ''b'') [post_no_id, post_B] = Inr [post_B]"
  by (simp add: Dashboard_handlePostDeleted_def Dashboard_init_def
      post_A_def post_B_def post_C_def post_no_id_def)

section \<open>Push insert\<close>

lemma list_ex_image:
  "list_ex (\<lambda>q. f q = k) xs \<longleftrightarrow> k \<in> f ` set xs"
  by (induction xs) auto

lemma distinct_member_count_1:
  "distinct xs \<Longrightarrow> x \<in> set xs \<Longrightarrow> count_list xs x = 1"
  by (induction xs) (auto simp: count_list_0_iff)

lemma Dashboard_created_distinct:
  "distinct (map post_id (posts s)) \<Longrightarrow>
   distinct (map post_id (posts (Dashboard_handlePostCreated e s)))"
  by (cases e) (auto simp: list_ex_image)

lemma Dashboard_created_ids:
  "post_id ` set (posts (Dashboard_handlePostCreated e s))
     = post_id ` set (posts s) \<union> {post_id p |p. e = JSObject p \<and> truthy (post_id p)}"
  by (cases e) (auto simp: list_ex_image)

lemma Dashboard_created_seq:
  "distinct (map post_id (posts s)) \<Longrightarrow>
   distinct (map post_id (posts (foldl (\<lambda>s e. Dashboard_handlePostCreated e s) s evs)))
   \<and> post_id ` set (posts (foldl (\<lambda>s e. Dashboard_handlePostCreated e s) s evs))
       = post_id ` set (posts s) \<union> {post_id p |p. JSObject p \<in> set evs \<and> truthy (post_id p)}"
proof (induction evs arbitrary: s)
  case Nil
  then show ?case by simp
next
  case (Cons e evs)
  have d: "distinct (map post_id (posts (Dashboard_handlePostCreated e s)))"
    using Cons.prems by (rule Dashboard_created_distinct)
  show ?case
    using Cons.IH [OF d] by (auto simp: Dashboard_created_ids)
qed

lemma Profile_created_distinct:
  "distinct (map post_id prev) \<Longrightarrow>
   distinct (map post_id (Profile_dispatch_created uid prev e))"
  by (cases e) (auto simp: Profile_dispatch_created_def list_ex_image)

lemma Profile_created_ids:
  "post_id ` set (Profile_dispatch_created uid prev e)
     = post_id ` set prev \<union> {post_id p |p. e = JSObject p \<and> user_uid p = Some uid}"
  by (cases e) (auto simp: Profile_dispatch_created_def list_ex_image)

lemma Profile_created_seq:
  "distinct (map post_id prev) \<Longrightarrow>
   distinct (map post_id (foldl (Profile_dispatch_created uid) prev evs))
   \<and> post_id ` set (foldl (Profile_dispatch_created uid) prev evs)
       = post_id ` set prev \<union> {post_id p |p. JSObject p \<in> set evs \<and> user_uid p = Some uid}"
proof (induction evs arbitrary: prev)
  case Nil
  then show ?case by simp
next
  case (Cons e evs)
  have d: "distinct (map post_id (Profile_dispatch_created uid prev e))"
    using Cons.prems by (rule Profile_created_distinct)
  show ?case
    using Cons.IH [OF d] by (auto simp: Profile_created_ids)
qed

text \<open>
  C1, as stated, fails on the profile screen: its \<open>handlePostCreated\<close> only takes posts
  of the profile's own user. The post \<open>D\<close> of user \<open>u2\<close> has an identifier that is absent
  from the list \<open>[A, C]\<close> of user \<open>u1\<close>, and it is not prepended.
\<close>

theorem Profile_created_foreign_post_counterexample:
  "post_id post_D \<notin> set (map post_id [post_A, post_C])
   \<and> Profile_handlePostCreated ''u1'' (JSObject post_D) [post_A, post_C] = Inr [post_A, post_C]
   \<and> Profile_handlePostCreated ''u1'' (JSObject post_D) [post_A, post_C]
       \<noteq> Inr (post_D # [post_A, post_C])"
  by (simp add: post_A_def post_C_def post_D_def)

text \<open>
  C1, amended. A push \<open>created\<close> event carries a post with an identifier. On the feed
  screen it leaves the list unchanged when the identifier is present and prepends the
  post when it is absent. On the profile screen this holds for the posts of the profile's
  own user; a post of another user leaves the list unchanged. Consequently, for every
  sequence of push \<open>created\<close> events applied to an identifier-distinct list, the resulting
  list is identifier-distinct and contains exactly once each pushed identifier that the
  screen accepts: on the feed those of the events that carry an identifier, on the profile
  those of the user's own posts.
\<close>

theorem created_prepends_unless_present:
  "(truthy (post_id p) \<longrightarrow>
      Dashboard_handlePostCreated (JSObject p) s
        = s\<lparr>posts := (if post_id p \<in> post_id ` set (posts s) then posts s else p # posts s)\<rparr>)
   \<and> (truthy (post_id p) \<longrightarrow>
      Profile_handlePostCreated uid (JSObject p) prev
        = Inr (if user_uid p = Some uid \<and> post_id p \<notin> post_id ` set prev then p # prev else prev))
   \<and> (distinct (map post_id (posts s)) \<longrightarrow>
        distinct (map post_id (posts (foldl (\<lambda>s e. Dashboard_handlePostCreated e s) s evs)))
        \<and> (\<forall>q. JSObject q \<in> set evs \<and> truthy (post_id q) \<longrightarrow>
              count_list (map post_id (posts (foldl (\<lambda>s e. Dashboard_handlePostCreated e s) s evs)))
                (post_id q) = 1))
   \<and> (distinct (map post_id prev) \<and> (\<forall>e \<in> set evs. \<exists>q. e = JSObject q \<and> truthy (post_id q)) \<longrightarrow>
        distinct (map post_id (foldl (Profile_dispatch_created uid) prev evs))
        \<and> (\<forall>q. JSObject q \<in> set evs \<and> user_uid q = Some uid \<longrightarrow>
              count_list (map post_id (foldl (Profile_dispatch_created uid) prev evs))
                (post_id q) = 1))"
proof -
  have single_feed: "truthy (post_id p) \<longrightarrow>
      Dashboard_handlePostCreated (JSObject p) s
        = s\<lparr>posts := (if post_id p \<in> post_id ` set (posts s) then posts s else p # posts s)\<rparr>"
    by (simp add: list_ex_image)
  have single_profile: "truthy (post_id p) \<longrightarrow>
      Profile_handlePostCreated uid (JSObject p) prev
        = Inr (if user_uid p = Some uid \<and> post_id p \<notin> post_id ` set prev then p # prev else prev)"
    by (simp add: list_ex_image)
  let ?r = "posts (foldl (\<lambda>s e. Dashboard_handlePostCreated e s) s evs)"
  have seq_feed: "distinct (map post_id ?r)
      \<and> (\<forall>q. JSObject q \<in> set evs \<and> truthy (post_id q) \<longrightarrow> count_list (map post_id ?r) (post_id q) = 1)"
    if d: "distinct (map post_id (posts s))"
  proof -
    note inv = Dashboard_created_seq [OF d, of evs]
    have "count_list (map post_id ?r) (post_id q) = 1"
      if "JSObject q \<in> set evs" "truthy (post_id q)" for q
    proof -
      have "post_id q \<in> set (map post_id ?r)"
        using inv that by auto
      with inv show ?thesis
        by (simp add: distinct_member_count_1)
    qed
    with inv show ?thesis
      by blast
  qed
  let ?t = "foldl (Profile_dispatch_created uid) prev evs"
  have seq_profile: "distinct (map post_id ?t)
      \<and> (\<forall>q. JSObject q \<in> set evs \<and> user_uid q = Some uid \<longrightarrow> count_list (map post_id ?t) (post_id q) = 1)"
    if d: "distinct (map post_id prev)"
  proof -
    note inv = Profile_created_seq [OF d, of uid evs]
    have "count_list (map post_id ?t) (post_id q) = 1"
      if "JSObject q \<in> set evs" "user_uid q = Some uid" for q
    proof -
      have "post_id q \<in> set (map post_id ?t)"
        using inv that by auto
      with inv show ?thesis
        by (simp add: distinct_member_count_1)
    qed
    with inv show ?thesis
      by blast
  qed
  from single_feed single_profile seq_feed seq_profile show ?thesis
    by blast
qed

theorem created_prepends_unless_present_witness:
  "truthy (post_id post_D)
   \<and> Dashboard_handlePostCreated (JSObject post_D) (Dashboard_init\<lparr>posts := [post_A, post_B, post_C]\<rparr>)
       = Dashboard_init\<lparr>posts := [post_D, post_A, post_B, post_C]\<rparr>
   \<and> distinct (map post_id (posts (Dashboard_init\<lparr>posts := [post_A, post_B, post_C]\<rparr>)))
   \<and> JSObject post_D \<in> set [JSObject post_D, JSObject post_D, JSObject post_A]
   \<and> count_list (map post_id (posts (foldl (\<lambda>s e. Dashboard_handlePostCreated e s)
         (Dashboard_init\<lparr>posts := [post_A, post_B, post_C]\<rparr>)
         [JSObject post_D, JSObject post_D, JSObject post_A]))) (post_id post_D) = 1
   \<and> distinct (map post_id [post_B]) \<and> user_uid post_D = Some ''u2''
   \<and> truthy (post_id post_A)
   \<and> Profile_handlePostCreated ''u2'' (JSObject post_D) [post_B] = Inr [post_D, post_B]
   \<and> count_list (map post_id (foldl (Profile_dispatch_created ''u2'') [post_B]
         [JSObject post_D, JSObject post_D, JSObject post_A])) (post_id post_D) = 1"
proof -
  let ?s = "Dashboard_init\<lparr>posts := [post_A, post_B, post_C]\<rparr>"
  let ?evs = "[JSObject post_D, JSObject post_D, JSObject post_A]"
  note T = created_prepends_unless_present [where p = post_D and s = ?s and evs = ?evs
      and uid = "''u2''" and prev = "[post_B]"]
  have t: "truthy (post_id post_D)"
    by (simp add: post_D_def)
  have absent: "post_id post_D \<notin> post_id ` set (posts ?s)"
    by (simp add: post_A_def post_B_def post_C_def post_D_def)
  have d: "distinct (map post_id (posts ?s))"
    by (simp add: post_A_def post_B_def post_C_def)
  have m: "JSObject post_D \<in> set ?evs"
    by simp
  have d': "distinct (map post_id [post_B])"
    by simp
  have o: "user_uid post_D = Some ''u2''"
    by (simp add: post_D_def)
  have "Dashboard_handlePostCreated (JSObject post_D) ?s
      = ?s\<lparr>posts := (if post_id post_D \<in> post_id ` set (posts ?s) then posts ?s
                       else post_D # posts ?s)\<rparr>"
    using T t by blast
  then have one: "Dashboard_handlePostCreated (JSObject post_D) ?s
      = Dashboard_init\<lparr>posts := [post_D, post_A, post_B, post_C]\<rparr>"
    using absent by simp
  have c1: "count_list (map post_id (posts (foldl (\<lambda>s e. Dashboard_handlePostCreated e s) ?s ?evs)))
      (post_id post_D) = 1"
    using T d m t by blast
  have wf: "\<forall>e \<in> set ?evs. \<exists>q. e = JSObject q \<and> truthy (post_id q)"
    by (simp add: post_A_def post_D_def)
  have "Profile_handlePostCreated ''u2'' (JSObject post_D) [post_B]
      = Inr (if user_uid post_D = Some ''u2'' \<and> post_id post_D \<notin> post_id ` set [post_B]
             then post_D # [post_B] else [post_B])"
    using T t by blast
  then have pone: "Profile_handlePostCreated ''u2'' (JSObject post_D) [post_B]
      = Inr [post_D, post_B]"
    by (simp add: post_B_def post_D_def)
  have c2: "count_list (map post_id (foldl (Profile_dispatch_created ''u2'') [post_B] ?evs))
      (post_id post_D) = 1"
    using T d' wf m o by blast
  have ta: "truthy (post_id post_A)"
    by (simp add: post_A_def)
  from t one d m c1 d' o ta pone c2 show ?thesis
    by blast
qed

section \<open>Page advance\<close>

lemma merge_distinct:
  "distinct (map f xs) \<Longrightarrow> distinct (map f pg) \<Longrightarrow>
   distinct (map f (xs @ filter (\<lambda>p. f p \<notin> set (map f xs)) pg))"
  by (auto simp: distinct_map_filter image_iff)

lemma merge_count:
  "i \<in> set (map f xs) \<Longrightarrow>
   count_list (map f (xs @ filter (\<lambda>p. f p \<notin> set (map f xs)) pg)) i = count_list (map f xs) i"
proof -
  assume i: "i \<in> set (map f xs)"
  have "i \<notin> set (map f (filter (\<lambda>p. f p \<notin> set (map f xs)) pg))"
    using i by (fastforce simp: image_iff)
  then have "count_list (map f (filter (\<lambda>p. f p \<notin> set (map f xs)) pg)) i = 0"
    by (metis count_list_0_iff)
  then show ?thesis by simp
qed

lemma map_replace_ids:
  "map f (map (\<lambda>p. if f p = f u then u else p) xs) = map f xs"
  by (induction xs) auto

lemma Dashboard_updated_distinct:
  assumes "distinct (map post_id (posts s))"
  shows "distinct (map post_id (posts (Dashboard_handlePostUpdated d s)))"
proof (cases d)
  case (JSObject u)
  then show ?thesis
    using assms by (simp add: map_replace_ids del: map_map)
qed (use assms in simp_all)

lemma Dashboard_deleted_distinct:
  "distinct (map post_id (posts s)) \<Longrightarrow>
   distinct (map post_id (posts (Dashboard_handlePostDeleted d s)))"
  by (simp add: Dashboard_handlePostDeleted_def Let_def distinct_map_filter)

lemma Dashboard_socket_event_distinct:
  "distinct (map post_id (posts s)) \<Longrightarrow>
   distinct (map post_id (posts (Dashboard_socket_event ev s)))"
  by (cases ev)
     (simp_all add: Dashboard_created_distinct Dashboard_updated_distinct Dashboard_deleted_distinct)

lemma Dashboard_socket_event_frame:
  "Dashboard_socket_event ev s = s\<lparr>posts := posts (Dashboard_socket_event ev s)\<rparr>"
proof (cases ev)
  case (PostCreated d)
  then show ?thesis by (cases d) simp_all
next
  case (PostUpdated d)
  then show ?thesis by (cases d) simp_all
next
  case (PostDeleted d)
  then show ?thesis by (simp add: Dashboard_handlePostDeleted_def Let_def)
qed

lemma Dashboard_socket_events_inv:
  "distinct (map post_id (posts s)) \<Longrightarrow>
   distinct (map post_id (posts (foldl (\<lambda>s e. Dashboard_socket_event e s) s evs)))"
  by (induction evs arbitrary: s) (simp_all add: Dashboard_socket_event_distinct del: Dashboard_socket_event.simps)

lemma Dashboard_socket_events_mounted:
  "isMounted (foldl (\<lambda>s e. Dashboard_socket_event e s) s evs) = isMounted s"
proof (induction evs arbitrary: s)
  case Nil
  then show ?case by simp
next
  case (Cons e evs)
  have "isMounted (Dashboard_socket_event e s) = isMounted s"
    by (subst Dashboard_socket_event_frame) simp
  then show ?case
    using Cons.IH [of "Dashboard_socket_event e s"] by (simp del: Dashboard_socket_event.simps)
qed

text \<open>
  C2, as stated, fails in its last part. The feed shows \<open>[A, B]\<close> and the request for
  page 2 is in flight; the server's answer \<open>[B, C]\<close> still contains \<open>B\<close>. A push
  \<open>deleted\<close> event for \<open>B\<close> arrives first and removes it. When the page is applied,
  \<open>B\<close> is absent from the current list, so the merge appends it again.
\<close>

theorem page_merge_resurrects_deleted_counterexample:
  "posts feed_loading_more = [post_A, post_B]
   \<and> posts (Dashboard_socket_event (PostDeleted (JSString ''b'')) feed_loading_more) = [post_A]
   \<and> posts (fetchPosts_resolved 2 True (Some [post_B, post_C])
        (Dashboard_socket_event (PostDeleted (JSString ''b'')) feed_loading_more))
     = [post_A, post_B, post_C]"
  by (simp add: feed_loading_more_def Dashboard_handlePostDeleted_def fetchPosts_resolved_def
      post_A_def post_B_def post_C_def)

lemma fetchPosts_resolved_append:
  "isMounted c \<Longrightarrow> 1 < pageNum \<Longrightarrow>
   posts (fetchPosts_resolved pageNum True (Some pg) c)
     = posts c @ filter (\<lambda>p. post_id p \<notin> set (map post_id (posts c))) pg"
  by (simp add: fetchPosts_resolved_def)

text \<open>
  C2, amended. Let push events \<open>evs\<close> arrive while a page fetch is in flight, and let
  \<open>c\<close> be the feed when the page \<open>pg\<close> is applied. The merge keeps the current list as
  a prefix and appends, in the page's order, exactly the fetched posts whose identifier is
  absent from the current list (the list at apply time, not at fetch start); an identifier
  present in the current list occurs as often after the merge as before; and when the list
  at fetch start and the page are both identifier-distinct, the merged list is
  identifier-distinct. Nothing keeps a post deleted during the flight from being appended
  again when the page contains it.
\<close>

theorem page_advance_merge:
  assumes "isMounted s" and "1 < pageNum"
    and "c = foldl (\<lambda>s e. Dashboard_socket_event e s) s evs"
  shows "(\<exists>added. posts (fetchPosts_resolved pageNum True (Some pg) c) = posts c @ added
            \<and> subseq added pg
            \<and> (\<forall>p. p \<in> set added \<longleftrightarrow> p \<in> set pg \<and> post_id p \<notin> post_id ` set (posts c)))
       \<and> (\<forall>i \<in> post_id ` set (posts c).
            count_list (map post_id (posts (fetchPosts_resolved pageNum True (Some pg) c))) i
              = count_list (map post_id (posts c)) i)
       \<and> (distinct (map post_id (posts s)) \<and> distinct (map post_id pg)
            \<longrightarrow> distinct (map post_id (posts (fetchPosts_resolved pageNum True (Some pg) c))))"
proof -
  let ?added = "filter (\<lambda>p. post_id p \<notin> set (map post_id (posts c))) pg"
  have m: "isMounted c"
    using assms(1,3) by (simp only: Dashboard_socket_events_mounted)
  have r: "posts (fetchPosts_resolved pageNum True (Some pg) c) = posts c @ ?added"
    using m assms(2) by (rule fetchPosts_resolved_append)
  have a: "\<exists>added. posts (fetchPosts_resolved pageNum True (Some pg) c) = posts c @ added
            \<and> subseq added pg
            \<and> (\<forall>p. p \<in> set added \<longleftrightarrow> p \<in> set pg \<and> post_id p \<notin> post_id ` set (posts c))"
  proof (intro exI conjI)
    show "posts (fetchPosts_resolved pageNum True (Some pg) c) = posts c @ ?added"
      by (rule r)
    show "subseq ?added pg"
      by simp
    show "\<forall>p. p \<in> set ?added \<longleftrightarrow> p \<in> set pg \<and> post_id p \<notin> post_id ` set (posts c)"
      by simp
  qed
  have b: "\<forall>i \<in> post_id ` set (posts c).
            count_list (map post_id (posts (fetchPosts_resolved pageNum True (Some pg) c))) i
              = count_list (map post_id (posts c)) i"
    unfolding r using merge_count [where f = post_id and xs = "posts c" and pg = pg] by simp
  have d: "distinct (map post_id (posts (fetchPosts_resolved pageNum True (Some pg) c)))"
    if "distinct (map post_id (posts s))" "distinct (map post_id pg)"
  proof -
    have "distinct (map post_id (posts c))"
      unfolding assms(3) using that(1) by (rule Dashboard_socket_events_inv)
    then show ?thesis
      unfolding r using that(2) by (rule merge_distinct)
  qed
  from a b d show ?thesis
    by blast
qed


theorem page_advance_merge_witness:
  "isMounted feed_loading_more \<and> (1::nat) < 2
   \<and> distinct (map post_id (posts feed_loading_more))
   \<and> distinct (map post_id [post_C, post_D])
   \<and> distinct (map post_id (posts (fetchPosts_resolved 2 True (Some [post_C, post_D])
         (foldl (\<lambda>s e. Dashboard_socket_event e s) feed_loading_more
            [PostCreated (JSObject post_C)]))))"
proof -
  have m: "isMounted feed_loading_more"
    by (simp add: feed_loading_more_def)
  have lt: "(1::nat) < 2"
    by simp
  have d1: "distinct (map post_id (posts feed_loading_more))"
    by (simp add: feed_loading_more_def post_A_def post_B_def)
  have d2: "distinct (map post_id [post_C, post_D])"
    by (simp add: post_C_def post_D_def)
  from page_advance_merge [OF m lt refl, where evs = "[PostCreated (JSObject post_C)]"
      and pg = "[post_C, post_D]"]
    d1 d2
  have "distinct (map post_id (posts (fetchPosts_resolved 2 True (Some [post_C, post_D])
         (foldl (\<lambda>s e. Dashboard_socket_event e s) feed_loading_more
            [PostCreated (JSObject post_C)]))))"
    by blast
  with m lt d1 d2 show ?thesis
    by blast
qed


section \<open>End of feed\<close>

lemma onIntersect_no_more:
  "\<not> hasMore s \<Longrightarrow> onIntersect b s w = (s, None)"
  by (simp add: onIntersect_def)

lemma Dashboard_socket_event_hasMore:
  "hasMore (Dashboard_socket_event ev s) = hasMore s"
  by (subst Dashboard_socket_event_frame) simp

lemma Dashboard_socket_event_page:
  "page (Dashboard_socket_event ev s) = page s"
  by (subst Dashboard_socket_event_frame) simp

lemma feed_step_no_more:
  "\<not> hasMore s \<Longrightarrow>
   \<not> hasMore (fst (feed_step w e s)) \<and> page (fst (feed_step w e s)) = page s
   \<and> snd (feed_step w e s) = []"
  by (cases e)
     (simp_all add: onIntersect_no_more Dashboard_socket_event_hasMore Dashboard_socket_event_page
        del: Dashboard_socket_event.simps)

lemma feed_run_no_more:
  "\<not> hasMore s \<Longrightarrow>
   \<not> hasMore (fst (feed_run w es s)) \<and> page (fst (feed_run w es s)) = page s
   \<and> snd (feed_run w es s) = []"
proof (induction es arbitrary: s)
  case Nil
  then show ?case by simp
next
  case (Cons e es)
  obtain s' rs where step: "feed_step w e s = (s', rs)"
    by (cases "feed_step w e s")
  with feed_step_no_more [OF Cons.prems, of w e]
  have s': "\<not> hasMore s'" "page s' = page s" "rs = []"
    by simp_all
  obtain s'' rs' where run: "feed_run w es s' = (s'', rs')"
    by (cases "feed_run w es s'")
  with Cons.IH [OF s'(1)] have "\<not> hasMore s''" "page s'' = page s'" "rs' = []"
    by simp_all
  with s' step run show ?case
    by (simp del: feed_step.simps)
qed

text \<open>
  C3. A pull-fetch that returns fewer than 10 posts (a missing \<open>posts\<close> property counts
  as none) sets \<open>hasMore\<close> to false on the mounted screen. While \<open>hasMore\<close> is false no
  observer is connected and a visibility change of the last post neither increments the
  page nor issues a request; this stays so through any sequence of push events and
  visibility changes.
\<close>

theorem short_page_ends_feed:
  "(isMounted s \<and> length (case body of None \<Rightarrow> [] | Some ps \<Rightarrow> ps) < 10
      \<longrightarrow> \<not> hasMore (fetchPosts_resolved pageNum shouldAppend body s))
   \<and> (\<not> hasMore s \<longrightarrow> \<not> observer_connected s \<and> onIntersect b s w = (s, None))
   \<and> (\<not> hasMore s \<longrightarrow>
        \<not> hasMore (fst (feed_run w es s)) \<and> page (fst (feed_run w es s)) = page s
        \<and> snd (feed_run w es s) = [])"
proof -
  have a: "isMounted s \<and> length (case body of None \<Rightarrow> [] | Some ps \<Rightarrow> ps) < 10
      \<longrightarrow> \<not> hasMore (fetchPosts_resolved pageNum shouldAppend body s)"
    by (simp add: fetchPosts_resolved_def Let_def)
  have b: "\<not> hasMore s \<longrightarrow> \<not> observer_connected s \<and> onIntersect b s w = (s, None)"
    by (simp add: onIntersect_no_more observer_connected_def)
  from a b feed_run_no_more [of s w es] show ?thesis
    by blast
qed


theorem short_page_ends_feed_witness:
  "isMounted (fst (fetchPosts_begin 1 Dashboard_init browser_signed_in))
   \<and> length (case Some [post_A, post_B] of None \<Rightarrow> [] | Some ps \<Rightarrow> ps) < 10
   \<and> \<not> hasMore (fetchPosts_resolved 1 False (Some [post_A, post_B])
          (fst (fetchPosts_begin 1 Dashboard_init browser_signed_in)))
   \<and> page (fst (feed_run browser_signed_in
          [Intersect True, Push (PostCreated (JSObject post_D)), Intersect True]
          (fetchPosts_resolved 1 False (Some [post_A, post_B])
             (fst (fetchPosts_begin 1 Dashboard_init browser_signed_in))))) = 1
   \<and> snd (feed_run browser_signed_in
          [Intersect True, Push (PostCreated (JSObject post_D)), Intersect True]
          (fetchPosts_resolved 1 False (Some [post_A, post_B])
             (fst (fetchPosts_begin 1 Dashboard_init browser_signed_in)))) = []"
proof -
  let ?s1 = "fst (fetchPosts_begin 1 Dashboard_init browser_signed_in)"
  let ?r = "fetchPosts_resolved 1 False (Some [post_A, post_B]) ?s1"
  let ?es = "[Intersect True, Push (PostCreated (JSObject post_D)), Intersect True]"
  have m: "isMounted ?s1"
    by (simp add: fetchPosts_begin_def Dashboard_init_def)
  have short: "length (case Some [post_A, post_B] of None \<Rightarrow> [] | Some ps \<Rightarrow> ps) < 10"
    by simp
  have nm: "\<not> hasMore ?r"
    using short_page_ends_feed [where s = ?s1 and body = "Some [post_A, post_B]"
        and pageNum = 1 and shouldAppend = False] m short
    by blast
  have run: "page (fst (feed_run browser_signed_in ?es ?r)) = page ?r
      \<and> snd (feed_run browser_signed_in ?es ?r) = []"
    using short_page_ends_feed [where s = ?r and w = browser_signed_in and es = ?es] nm
    by blast
  have pg: "page ?r = 1"
    by (simp add: fetchPosts_resolved_def fetchPosts_begin_def Dashboard_init_def)
  from m short nm run pg show ?thesis
    by simp
qed

section \<open>Failed pull-fetch\<close>











section \<open>Authentication failure\<close>

lemma force_logout_effect:
  "localStorage (force_logout w) ''authToken'' = None
   \<and> (\<forall>k. k \<noteq> ''authToken'' \<longrightarrow> localStorage (force_logout w) k = localStorage w k)
   \<and> timers (force_logout w) = timers w @ [(2000, Redirect ''/login'')]"
  by (simp add: force_logout_def)

lemma fetchPosts_settle_browser:
  "snd (fetchPosts_settle pageNum shouldAppend res s w)
     = (if isMounted s \<and> (\<exists>e. res = Rejected e \<and> is_auth_error e) then force_logout w else w)"
proof (cases res)
  case (Resolved body)
  then show ?thesis
    by (cases body)
       (simp_all add: fetchPosts_rejected_def body_TypeError_def is_auth_error_def)
next
  case (Rejected e)
  then show ?thesis
    by (simp add: fetchPosts_rejected_def)
qed

text \<open>
  C9. A pull-fetch of the feed screen or of the profile screen that is rejected with
  status 401 or 403 on a mounted screen removes \<open>authToken\<close> from local storage (and
  nothing else), schedules the redirect to \<open>/login\<close> with a delay of 2000 ms, and sets
  the error message that is shown meanwhile. Every other outcome (another status, no
  response at all, a response without a body, a success) leaves local storage and the
  timers untouched.
\<close>

theorem auth_failure_forces_logout:
  "snd (fetchPosts_settle pageNum shouldAppend res s w)
     = (if isMounted s \<and> (\<exists>e. res = Rejected e \<and> is_auth_error e) then force_logout w else w)
   \<and> snd (fetchProfile_rejected mounted err ps w)
     = (if mounted \<and> is_auth_error err then force_logout w else w)
   \<and> (isMounted s \<longrightarrow> error (fst (fetchPosts_settle pageNum shouldAppend (Rejected err) s w))
        = Some (errorMessage_of ''Failed to load posts'' err))
   \<and> (mounted \<longrightarrow> profile_error (fst (fetchProfile_rejected mounted err ps w))
        = Some (errorMessage_of ''Failed to load profile'' err))
   \<and> localStorage (force_logout w) ''authToken'' = None
   \<and> (\<forall>k. k \<noteq> ''authToken'' \<longrightarrow> localStorage (force_logout w) k = localStorage w k)
   \<and> timers (force_logout w) = timers w @ [(2000, Redirect ''/login'')]
   \<and> (is_auth_error err \<longleftrightarrow>
        (\<exists>r. response err = Some r \<and> (status r = Some 401 \<or> status r = Some 403)))"
proof -
  have p: "snd (fetchProfile_rejected mounted err ps w)
     = (if mounted \<and> is_auth_error err then force_logout w else w)"
    by (simp add: fetchProfile_rejected_def)
  have e1: "isMounted s \<longrightarrow> error (fst (fetchPosts_settle pageNum shouldAppend (Rejected err) s w))
        = Some (errorMessage_of ''Failed to load posts'' err)"
    by (simp add: fetchPosts_rejected_def)
  have e2: "mounted \<longrightarrow> profile_error (fst (fetchProfile_rejected mounted err ps w))
        = Some (errorMessage_of ''Failed to load profile'' err)"
    by (simp add: fetchProfile_rejected_def)
  have a: "is_auth_error err \<longleftrightarrow>
        (\<exists>r. response err = Some r \<and> (status r = Some 401 \<or> status r = Some 403))"
    by (auto simp: is_auth_error_def split: option.splits)
  from fetchPosts_settle_browser [of pageNum shouldAppend res s w] p e1 e2
    force_logout_effect [of w] a
  show ?thesis
    by blast
qed

theorem auth_failure_forces_logout_witness:
  "isMounted feed_loading_initial \<and> is_auth_error err_401 \<and> \<not> is_auth_error err_500
   \<and> localStorage browser_signed_in ''authToken'' = Some ''t0''
   \<and> localStorage (snd (fetchPosts_settle 1 False (Rejected err_401) feed_loading_initial
        browser_signed_in)) ''authToken'' = None
   \<and> timers (snd (fetchPosts_settle 1 False (Rejected err_401) feed_loading_initial
        browser_signed_in)) = [(2000, Redirect ''/login'')]
   \<and> snd (fetchPosts_settle 1 False (Rejected err_500) feed_loading_initial browser_signed_in)
       = browser_signed_in
   \<and> snd (fetchProfile_rejected True err_500 Profile_init browser_signed_in) = browser_signed_in"
proof -
  have m: "isMounted feed_loading_initial"
    by (simp add: feed_loading_initial_def fetchPosts_begin_def Dashboard_init_def)
  have a401: "is_auth_error err_401"
    by (simp add: is_auth_error_def err_401_def)
  have a500: "\<not> is_auth_error err_500"
    by (simp add: is_auth_error_def err_500_def)
  have tok: "localStorage browser_signed_in ''authToken'' = Some ''t0''"
    by (simp add: browser_signed_in_def)
  note T401 = auth_failure_forces_logout [where res = "Rejected err_401"
      and s = feed_loading_initial and w = browser_signed_in and pageNum = 1
      and shouldAppend = False]
  note T500 = auth_failure_forces_logout [where res = "Rejected err_500" and err = err_500
      and s = feed_loading_initial and w = browser_signed_in and pageNum = 1
      and shouldAppend = False and mounted = True and ps = Profile_init]
  have out: "snd (fetchPosts_settle 1 False (Rejected err_401) feed_loading_initial
        browser_signed_in) = force_logout browser_signed_in"
    using T401 m a401 by auto
  have l1: "localStorage (snd (fetchPosts_settle 1 False (Rejected err_401) feed_loading_initial
        browser_signed_in)) ''authToken'' = None"
    unfolding out using T401 by blast
  have "timers (snd (fetchPosts_settle 1 False (Rejected err_401) feed_loading_initial
        browser_signed_in)) = timers browser_signed_in @ [(2000, Redirect ''/login'')]"
    unfolding out using T401 by blast
  then have l2: "timers (snd (fetchPosts_settle 1 False (Rejected err_401) feed_loading_initial
        browser_signed_in)) = [(2000, Redirect ''/login'')]"
    by (simp add: browser_signed_in_def)
  have n1: "snd (fetchPosts_settle 1 False (Rejected err_500) feed_loading_initial
        browser_signed_in) = browser_signed_in"
    using T500 a500 by auto
  have n2: "snd (fetchProfile_rejected True err_500 Profile_init browser_signed_in)
        = browser_signed_in"
    using T500 a500 by auto
  from m a401 a500 tok l1 l2 n1 n2 show ?thesis
    by blast
qed

section \<open>Push events and the initial load\<close>





section \<open>Malformed push payloads\<close>

lemma id_strict_eq_JSObject: "id_strict_eq x (JSObject d) = False"
  by (cases x) auto

text \<open>
  The feed screen's handlers drop a malformed payload: \<open>null\<close>, \<open>undefined\<close>, an empty
  string, or an object without a truthy \<open>_id\<close> leave the whole state as it was, and the
  handlers cannot throw.
\<close>

lemma Dashboard_drops_malformed:
  assumes "falsy d \<or> (\<exists>p. d = JSObject p \<and> \<not> truthy (post_id p))"
  shows "Dashboard_socket_event (PostCreated d) s = s"
    and "Dashboard_socket_event (PostUpdated d) s = s"
    and "Dashboard_socket_event (PostDeleted d) s = s"
  using assms
  by (cases d; auto simp: Dashboard_handlePostDeleted_def Let_def id_strict_eq_JSObject)+

text \<open>
  C5 fails on the profile screen, whose handlers have neither the guard nor the
  \<open>try\<close> of the feed screen's: \<open>null\<close> and \<open>undefined\<close> make
  \<open>handlePostCreated\<close>, \<open>handlePostUpdated\<close> and \<open>handlePostDeleted\<close> throw a
  \<open>TypeError\<close>, and an own post without \<open>_id\<close> is prepended to the list.
\<close>

theorem Profile_handlers_malformed_payload:
  "Profile_handlePostCreated ''u1'' JSNull [post_A] = Inl TypeError
   \<and> Profile_handlePostCreated ''u1'' JSUndefined [post_A] = Inl TypeError
   \<and> Profile_handlePostUpdated ''u1'' JSNull [post_A] = Inl TypeError
   \<and> Profile_handlePostUpdated ''u1'' JSUndefined [post_A] = Inl TypeError
   \<and> Profile_handlePostDeleted JSNull [post_A] = Inl TypeError
   \<and> Profile_handlePostDeleted JSUndefined [post_A] = Inl TypeError
   \<and> Profile_handlePostCreated ''u1'' (JSObject post_no_id) [post_A] = Inr [post_no_id, post_A]"
  by (simp add: post_A_def post_no_id_def)

section \<open>Post edit\<close>

lemma handleEdit_noop:
  assumes "trim (editContent c) = [] \<or> Some (trim (editContent c)) = content p"
  shows "handleEdit api cb cu w p c = (c\<lparr>isEditing := False, editContent := content_or_empty p\<rparr>, [])"
  using assms by (auto simp: handleEdit_def Let_def)

lemma handleEdit_too_long:
  assumes "trim (editContent c) \<noteq> []" and "Some (trim (editContent c)) \<noteq> content p"
    and "length (trim (editContent c)) > 5000"
  shows "handleEdit api cb cu w p c
           = (c, [Alert ''Post content is too long (max 5000 characters)''])"
  using assms by (simp add: handleEdit_def Let_def)

lemma handleEdit_put:
  assumes "PutPost req \<in> set (snd (handleEdit api cb cu w p c))"
  shows "trim (editContent c) \<noteq> [] \<and> Some (trim (editContent c)) \<noteq> content p
       \<and> length (trim (editContent c)) \<le> 5000
       \<and> put_id req = post_id p \<and> put_content req = trim (editContent c)"
  using assms
  by (auto simp: handleEdit_def Let_def split: if_splits option.splits sum.splits)

lemma handleEdit_callback:
  assumes "OnPostUpdated u \<in> set (snd (handleEdit api cb cu w p c))"
  shows "\<exists>req. PutPost req \<in> set (snd (handleEdit api cb cu w p c)) \<and> api req = Inr u"
  using assms
  by (auto simp: handleEdit_def Let_def split: if_splits option.splits sum.splits)

lemma click_save_effects:
  "set (snd (click_save api cb cu w p c)) \<subseteq> set (snd (handleEdit api cb cu w p c))"
  by (simp add: click_save_def)

text \<open>
  C10. In \<open>handleEdit\<close>, when the trimmed edit content is empty or equal to the post's
  content, nothing is sent, editing closes and the edit box is reset to the post's content.
  When the trimmed content has more than 5000 code units, no request is sent and the
  parent is not told of any update; unless it equals the post's content, the only effect
  is the alert and the card stays as it is. A \<open>PUT\<close> request, from \<open>handleEdit\<close> or
  from a click on Save, is sent only when the trimmed content is non-empty, differs from
  the post's content and has at most 5000 code units; it addresses the post's identifier
  and carries the trimmed content. The parent's \<open>onPostUpdated\<close> is only called with
  the answer to such a request.
\<close>

theorem edit_request_only_when_valid:
  "(trim (editContent c) = [] \<or> Some (trim (editContent c)) = content p \<longrightarrow>
      handleEdit api cb cu w p c
        = (c\<lparr>isEditing := False, editContent := content_or_empty p\<rparr>, []))
   \<and> (length (trim (editContent c)) > 5000 \<longrightarrow>
        (\<forall>e \<in> set (snd (handleEdit api cb cu w p c)).
            (\<forall>req. e \<noteq> PutPost req) \<and> (\<forall>u. e \<noteq> OnPostUpdated u)))
   \<and> (trim (editContent c) \<noteq> [] \<and> Some (trim (editContent c)) \<noteq> content p
        \<and> length (trim (editContent c)) > 5000 \<longrightarrow>
        handleEdit api cb cu w p c
          = (c, [Alert ''Post content is too long (max 5000 characters)'']))
   \<and> (\<forall>req. PutPost req \<in> set (snd (handleEdit api cb cu w p c))
          \<or> PutPost req \<in> set (snd (click_save api cb cu w p c)) \<longrightarrow>
        trim (editContent c) \<noteq> [] \<and> Some (trim (editContent c)) \<noteq> content p
        \<and> length (trim (editContent c)) \<le> 5000
        \<and> put_id req = post_id p \<and> put_content req = trim (editContent c))
   \<and> (\<forall>u. OnPostUpdated u \<in> set (snd (handleEdit api cb cu w p c)) \<longrightarrow>
        (\<exists>req. PutPost req \<in> set (snd (handleEdit api cb cu w p c)) \<and> api req = Inr u))"
proof -
  let ?effs = "snd (handleEdit api cb cu w p c)"
  have a: "trim (editContent c) = [] \<or> Some (trim (editContent c)) = content p \<longrightarrow>
      handleEdit api cb cu w p c
        = (c\<lparr>isEditing := False, editContent := content_or_empty p\<rparr>, [])"
    using handleEdit_noop by blast
  have put: "trim (editContent c) \<noteq> [] \<and> Some (trim (editContent c)) \<noteq> content p
        \<and> length (trim (editContent c)) \<le> 5000
        \<and> put_id req = post_id p \<and> put_content req = trim (editContent c)"
    if "PutPost req \<in> set ?effs \<or> PutPost req \<in> set (snd (click_save api cb cu w p c))" for req
  proof -
    have "PutPost req \<in> set ?effs"
      using that click_save_effects [of api cb cu w p c] by blast
    then show ?thesis
      by (rule handleEdit_put)
  qed
  have cbk: "\<exists>req. PutPost req \<in> set ?effs \<and> api req = Inr u"
    if "OnPostUpdated u \<in> set ?effs" for u
    using that by (rule handleEdit_callback)
  have long: "(\<forall>req. e \<noteq> PutPost req) \<and> (\<forall>u. e \<noteq> OnPostUpdated u)"
    if l: "length (trim (editContent c)) > 5000" and e: "e \<in> set ?effs" for e
  proof -
    have np: "PutPost req \<notin> set ?effs" for req
      using handleEdit_put [of req api cb cu w p c] l by auto
    have "OnPostUpdated u \<notin> set ?effs" for u
      using handleEdit_callback [of u api cb cu w p c] np by blast
    with np e show ?thesis
      by blast
  qed
  have b: "trim (editContent c) \<noteq> [] \<and> Some (trim (editContent c)) \<noteq> content p
        \<and> length (trim (editContent c)) > 5000 \<longrightarrow>
        handleEdit api cb cu w p c
          = (c, [Alert ''Post content is too long (max 5000 characters)''])"
    using handleEdit_too_long by blast
  from a long b put cbk show ?thesis
    by blast
qed

theorem edit_request_only_when_valid_witness:
  "Some (trim (editContent (card_editing\<lparr>editContent := [0x20, 0x41]\<rparr>))) = content post_A
   \<and> handleEdit api_accepts True (Some ''u1'') browser_signed_in post_A
        (card_editing\<lparr>editContent := [0x20, 0x41]\<rparr>)
       = (\<lparr>isEditing = False, editContent = [0x41], isSaving = False\<rparr>, [])
   \<and> PutPost \<lparr>put_id = Some ''a'', put_userId = ''u1'', put_content = [0x5A], put_token = ''t0''\<rparr>
        \<in> set (snd (click_save api_accepts True (Some ''u1'') browser_signed_in post_A card_editing))
   \<and> trim (editContent card_editing) \<noteq> []
   \<and> Some (trim (editContent card_editing)) \<noteq> content post_A
   \<and> length (trim (editContent card_editing)) \<le> 5000
   \<and> length (trim (editContent (card_editing\<lparr>editContent := replicate 5001 0x41\<rparr>))) > 5000
   \<and> handleEdit api_accepts True (Some ''u1'') browser_signed_in post_A
        (card_editing\<lparr>editContent := replicate 5001 0x41\<rparr>)
       = (card_editing\<lparr>editContent := replicate 5001 0x41\<rparr>,
          [Alert ''Post content is too long (max 5000 characters)''])"
proof -
  let ?same = "card_editing\<lparr>editContent := [0x20, 0x41]\<rparr>"
  let ?long = "card_editing\<lparr>editContent := replicate 5001 0x41\<rparr>"
  let ?req = "\<lparr>put_id = Some ''a'', put_userId = ''u1'', put_content = [0x5A], put_token = ''t0''\<rparr>"
  have same: "Some (trim (editContent ?same)) = content post_A"
    by (simp add: trim_def card_editing_def js_whitespace_def post_A_def)
  have "handleEdit api_accepts True (Some ''u1'') browser_signed_in post_A ?same
      = (?same\<lparr>isEditing := False, editContent := content_or_empty post_A\<rparr>, [])"
    using edit_request_only_when_valid [where c = ?same and p = post_A] same by blast
  then have closed: "handleEdit api_accepts True (Some ''u1'') browser_signed_in post_A ?same
      = (\<lparr>isEditing = False, editContent = [0x41], isSaving = False\<rparr>, [])"
    by (simp add: card_editing_def content_or_empty_def post_A_def)
  have tz: "trim (editContent card_editing) = [0x5A]"
    by (simp add: trim_def card_editing_def js_whitespace_def)
  have sent: "PutPost ?req
      \<in> set (snd (click_save api_accepts True (Some ''u1'') browser_signed_in post_A card_editing))"
    by (simp add: click_save_def save_disabled_def handleEdit_def Let_def tz api_accepts_def
        browser_signed_in_def post_A_def)
       (simp add: card_editing_def)
  have valid: "trim (editContent card_editing) \<noteq> []
      \<and> Some (trim (editContent card_editing)) \<noteq> content post_A
      \<and> length (trim (editContent card_editing)) \<le> 5000"
    using edit_request_only_when_valid [where c = card_editing and p = post_A
        and api = api_accepts and cb = True and cu = "Some ''u1''" and w = browser_signed_in]
      sent by blast
  have tl: "trim (replicate 5001 (0x41 :: 16 word)) = replicate 5001 0x41"
    by (simp add: trim_def js_whitespace_def)
  have long: "length (trim (editContent ?long)) > 5000"
    by (simp add: tl)
  have ne1: "trim (editContent ?long) \<noteq> []"
    by (simp add: tl)
  have ne2: "Some (trim (editContent ?long)) \<noteq> content post_A"
  proof
    assume "Some (trim (editContent ?long)) = content post_A"
    then have "replicate 5001 (0x41 :: 16 word) = [0x41]"
      by (simp add: tl post_A_def)
    then have "length (replicate 5001 (0x41 :: 16 word)) = length [0x41 :: 16 word]"
      by (rule arg_cong)
    then show False
      by simp
  qed
  note ne = ne1 ne2
  have rejected: "handleEdit api_accepts True (Some ''u1'') browser_signed_in post_A ?long
      = (?long, [Alert ''Post content is too long (max 5000 characters)''])"
    using edit_request_only_when_valid [where c = ?long and p = post_A] ne long by blast
  from same closed sent valid long rejected show ?thesis
    by blast
qed

end
